theory Spec2Isabelle
  imports Complex_Main "HOL-Library.Word" "HOL-Library.Log_Nat"
begin

section \<open>The recognizer cache\<close>

text \<open>
  The class \<open>recognizer\<close> keeps two string-keyed maps of one-byte classifications (the
  confirmed \<open>m_cache\<close> and the provisional \<open>m_pending\<close>), a single work slot
  \<open>m_queue\<close>, a lazily started worker thread with its auto-reset wake event
  \<open>m_event\<close>, the manual-reset event \<open>s_ready_event\<close> and three flags.  Every
  member function takes the recursive mutex first, so each one is an atomic step on the
  record below; the worker's loop body is split where it releases the mutex.

  Handles are modelled by whether they are non-null, events additionally by whether they
  are signalled.  The linear allocator is abstracted to the strings it holds; whether an
  allocation succeeds is an input (\<open>heap_store_ok\<close>), as are the results of all other
  operating-system calls.  The classification byte is a C \<open>char\<close>.
\<close>

type_synonym cchar = "8 word"

record entry =
  m_key :: string
  m_word :: string

record recognizer =
  m_heap :: "string list"
  m_cache :: "string \<rightharpoonup> cchar"
  m_pending :: "string \<rightharpoonup> cchar"
  m_queue :: entry
  m_thread :: bool
  m_event :: bool
  m_event_signaled :: bool
  m_processing :: bool
  m_result_available :: bool
  m_zombie :: bool
  s_ready_event :: bool
  s_ready_signaled :: bool

datatype reg_type = REG_SZ | REG_EXPAND_SZ | REG_OTHER

record os_env =
  create_event_ok :: bool
  heap_store_ok :: bool
  search_for_executable :: "string \<Rightarrow> bool"
  get_extension :: "string \<Rightarrow> string option"
  reg_open_ok :: "string \<Rightarrow> bool"
  reg_query_more_data :: "string \<Rightarrow> reg_type option"

definition entry_empty :: "entry \<Rightarrow> bool" where
  "entry_empty e = (m_key e = [])"

definition entry_clear :: entry where
  "entry_clear = \<lparr>m_key = [], m_word = []\<rparr>"

text \<open>The constructor: an empty cache; \<open>CreateEvent\<close> for the ready event may fail.\<close>

definition recognizer_ctor :: "bool \<Rightarrow> recognizer" where
  "recognizer_ctor ready_ok =
     \<lparr>m_heap = [], m_cache = Map.empty, m_pending = Map.empty, m_queue = entry_clear,
      m_thread = False, m_event = False, m_event_signaled = False,
      m_processing = False, m_result_available = False, m_zombie = False,
      s_ready_event = ready_ok, s_ready_signaled = False\<rparr>"

definition clear :: "recognizer \<Rightarrow> recognizer" where
  "clear r = r\<lparr>m_cache := Map.empty, m_pending := Map.empty, m_heap := []\<rparr>"

definition usable :: "recognizer \<Rightarrow> bool" where
  "usable r = (\<not> m_zombie r \<and> s_ready_event r)"

text \<open>\<open>find\<close> returns \<open>Some c\<close> for \<open>true\<close> with \<open>*cached = c\<close> and \<open>None\<close> for \<open>false\<close>.\<close>

definition find :: "recognizer \<Rightarrow> string \<Rightarrow> cchar option" where
  "find r key =
     (case (if usable r then m_cache r key else None) of
        Some c \<Rightarrow> Some c
      | None \<Rightarrow>
          (case (if usable r then m_pending r key else None) of
             Some c \<Rightarrow> Some c
           | None \<Rightarrow> None))"

definition set_result_available :: "bool \<Rightarrow> recognizer \<Rightarrow> bool \<times> recognizer" where
  "set_result_available available r =
     (if available = m_result_available r then (available, r)
      else
        (let r1 = r\<lparr>m_result_available := available\<rparr>;
             r2 = (if s_ready_event r1 then r1\<lparr>s_ready_signaled := available\<rparr> else r1)
         in (\<not> available, r2)))"

definition notify_ready :: "bool \<Rightarrow> recognizer \<Rightarrow> recognizer" where
  "notify_ready available r =
     (let r1 = (if available then snd (set_result_available available r) else r)
      in if s_ready_event r1 then r1\<lparr>s_ready_signaled := True\<rparr> else r1)"

definition need_refresh :: "recognizer \<Rightarrow> bool \<times> recognizer" where
  "need_refresh r = set_result_available False r"

definition store :: "os_env \<Rightarrow> string \<Rightarrow> cchar \<Rightarrow> bool \<Rightarrow> recognizer \<Rightarrow> bool \<times> recognizer" where
  "store env word cached pending r =
     (if \<not> usable r then (False, r)
      else if pending then
        (if m_pending r word \<noteq> None then
           (True, snd (set_result_available True (r\<lparr>m_pending := (m_pending r)(word \<mapsto> cached)\<rparr>)))
         else if \<not> heap_store_ok env then (False, r)
         else
           (True, snd (set_result_available True
              (r\<lparr>m_heap := m_heap r @ [word], m_pending := (m_pending r)(word \<mapsto> cached)\<rparr>))))
      else
        (if m_cache r word \<noteq> None then
           (True, snd (set_result_available True (r\<lparr>m_cache := (m_cache r)(word \<mapsto> cached)\<rparr>)))
         else if \<not> heap_store_ok env then (False, r)
         else
           (True, snd (set_result_available True
              (r\<lparr>m_heap := m_heap r @ [word], m_cache := (m_cache r)(word \<mapsto> cached)\<rparr>)))))"

definition enqueue :: "os_env \<Rightarrow> string \<Rightarrow> string \<Rightarrow> recognizer \<Rightarrow> bool \<times> recognizer" where
  "enqueue env key word r =
     (if \<not> usable r then (False, r)
      else if \<not> m_event r \<and> \<not> create_event_ok env then (False, r)
      else
        (let r1 = (if m_event r then r else r\<lparr>m_event := True, m_event_signaled := False\<rparr>);
             r2 = r1\<lparr>m_thread := True\<rparr>;
             r3 = r2\<lparr>m_queue := \<lparr>m_key = key, m_word = word\<rparr>\<rparr>;
             r4 = snd (store env key (- 1) True r3);
             r5 = r4\<lparr>m_event_signaled := True\<rparr>
         in (True, r5)))"

definition dequeue :: "recognizer \<Rightarrow> entry option \<times> recognizer" where
  "dequeue r =
     (if \<not> usable r \<or> entry_empty (m_queue r) then (None, r)
      else (Some (m_queue r), r\<lparr>m_queue := entry_clear\<rparr>))"

subsection \<open>Shutdown\<close>

text \<open>
  \<open>shutdown\<close> first runs a block under the mutex: it clears the cache, enters the zombie
  state, signals the wake event when there is one, and takes the thread object.
  \<open>shutdown_locked\<close> is that block; it returns the calls made, whether there is a
  thread to join, and the state.  What follows the block needs the worker and is
  defined after it.
\<close>

datatype os_action = SetEvent_m_event | Thread_join | CloseHandle_m_event

definition shutdown_locked :: "recognizer \<Rightarrow> os_action list \<times> bool \<times> recognizer" where
  "shutdown_locked r =
     (let r1 = clear r;
          r2 = r1\<lparr>m_zombie := True\<rparr>;
          r3 = (if m_event r2 then r2\<lparr>m_event_signaled := True\<rparr> else r2);
          thread = m_thread r3;
          r4 = r3\<lparr>m_thread := False\<rparr>
      in (if m_event r2 then [SetEvent_m_event] else [], thread, r4))"

subsection \<open>The worker\<close>

text \<open>
  One pass of the worker's inner loop is \<open>proc_dequeue\<close> (the block under the mutex)
  followed, when an entry was taken, by \<open>proc_resolve\<close> (the search, then \<open>store\<close> and
  \<open>notify_ready\<close>).  \<open>proc_inner\<close> is the inner \<open>while (true)\<close> run without the main
  thread in between; it returns the entries the worker took, in order.  The search of
  the path, the extension of the word and the registry are inputs.  A word that is not
  found and has an extension without an open command is stored in neither map.
\<close>

definition proc_dequeue :: "recognizer \<Rightarrow> entry option \<times> recognizer" where
  "proc_dequeue r =
     (case (if m_zombie r then (None, r) else dequeue r) of
        (None, r0) \<Rightarrow>
          (let r1 = r0\<lparr>m_processing := False\<rparr>;
               r2 = r1\<lparr>m_pending := Map.empty\<rparr>
           in (None, if \<not> m_zombie r2 then notify_ready False r2 else r2))
      | (Some e, r0) \<Rightarrow> (Some e, r0\<lparr>m_processing := True\<rparr>))"

definition proc_executable :: "os_env \<Rightarrow> entry \<Rightarrow> recognizer \<Rightarrow> recognizer" where
  "proc_executable env e r = notify_ready True (snd (store env (m_key e) 1 False r))"

definition proc_resolve :: "os_env \<Rightarrow> entry \<Rightarrow> recognizer \<Rightarrow> recognizer" where
  "proc_resolve env e r =
     (if search_for_executable env (m_word e) then proc_executable env e r
      else
        (case get_extension env (m_word e) of
           Some ext \<Rightarrow>
             (if reg_open_ok env ext then
                (let has_command =
                       (case reg_query_more_data env ext of
                          Some ty \<Rightarrow> ty = REG_SZ \<or> ty = REG_EXPAND_SZ
                        | None \<Rightarrow> False)
                 in if has_command then proc_executable env e r else r)
              else r)
         | None \<Rightarrow> notify_ready True (snd (store env (m_key e) (- 1) False r))))"

lemma queue_set_result_available [simp]:
  "m_queue (snd (set_result_available a r)) = m_queue r"
  by (simp add: set_result_available_def Let_def)

lemma queue_notify_ready [simp]: "m_queue (notify_ready a r) = m_queue r"
  by (simp add: notify_ready_def Let_def)

lemma queue_store [simp]: "m_queue (snd (store env w c p r)) = m_queue r"
  by (simp add: store_def)

lemma queue_proc_resolve [simp]: "m_queue (proc_resolve env e r) = m_queue r"
  by (simp add: proc_resolve_def proc_executable_def Let_def split: option.splits)

lemma proc_dequeue_Some:
  "proc_dequeue r = (Some e, r') \<Longrightarrow> \<not> entry_empty (m_queue r) \<and> entry_empty (m_queue r')"
  by (auto simp: proc_dequeue_def dequeue_def entry_empty_def entry_clear_def Let_def
           split: if_splits)

function proc_inner :: "os_env \<Rightarrow> recognizer \<Rightarrow> entry list \<times> recognizer" where
  "proc_inner env r =
     (case proc_dequeue r of
        (None, r') \<Rightarrow> ([], r')
      | (Some e, r') \<Rightarrow>
          (case proc_inner env (proc_resolve env e r') of
             (es, r'') \<Rightarrow> (e # es, r'')))"
  by pat_completeness auto
termination
  apply (relation "measure (\<lambda>(env, r). if entry_empty (m_queue r) then 0 else 1)")
   apply simp
  apply (auto dest!: proc_dequeue_Some [OF sym])
  done

declare proc_inner.simps [simp del]

text \<open>
  The worker wakes from \<open>WaitForSingleObject(m_event, INFINITE)\<close>, which consumes the
  auto-reset event, and then runs the inner loop.  \<open>proc_wake\<close> is one turn of the
  outer \<open>while (true)\<close>.
\<close>

definition proc_wake :: "os_env \<Rightarrow> recognizer \<Rightarrow> entry list \<times> recognizer" where
  "proc_wake env r = proc_inner env (r\<lparr>m_event_signaled := False\<rparr>)"

text \<open>
  \<open>proc\<close> is the thread function: its outer \<open>while (true)\<close> waits for the wake event
  and runs the inner loop, again and again.  There is no \<open>return\<close> and no \<open>break\<close>
  out of the outer loop; the test of \<open>m_zombie\<close> leaves the inner loop only.  A result
  \<open>Some r\<close> would be the state at which the function returns; a wait that is never
  answered and a loop that never ends are both \<open>None\<close>.
\<close>

partial_function (option) "proc" :: "os_env \<Rightarrow> recognizer \<Rightarrow> recognizer option" where
  "proc env r = proc env (snd (proc_wake env r))"

text \<open>
  After its block under the mutex \<open>shutdown\<close> joins the thread it took, which returns
  when \<open>proc\<close> does, and then closes the wake event.  \<open>None\<close> means that
  \<open>shutdown\<close> does not return.
\<close>

definition shutdown :: "os_env \<Rightarrow> recognizer \<Rightarrow> (os_action list \<times> recognizer) option" where
  "shutdown env r =
     (case shutdown_locked r of
        (acts, thread, r1) \<Rightarrow>
          if thread then
            (case proc env r1 of
               None \<Rightarrow> None
             | Some r2 \<Rightarrow>
                 Some (acts @ [Thread_join] @ (if m_event r2 then [CloseHandle_m_event] else []), r2))
          else Some (acts @ (if m_event r1 then [CloseHandle_m_event] else []), r1))"

subsection \<open>Interleavings\<close>

text \<open>
  The main thread and the worker interleave at the granularity of the mutex.  A run is a
  list of the steps below, applied in order; \<open>Op_proc_resolve\<close> carries the entry the
  worker holds at that moment, and \<open>Op_shutdown\<close> is the block of \<open>shutdown\<close> under
  the mutex.
\<close>

datatype rec_op =
    Op_clear
  | Op_enqueue os_env string string
  | Op_need_refresh
  | Op_proc_dequeue
  | Op_proc_resolve os_env entry
  | Op_shutdown

fun exec_op :: "rec_op \<Rightarrow> recognizer \<Rightarrow> recognizer" where
  "exec_op Op_clear r = clear r"
| "exec_op (Op_enqueue env key word) r = snd (enqueue env key word r)"
| "exec_op Op_need_refresh r = snd (need_refresh r)"
| "exec_op Op_proc_dequeue r = snd (proc_dequeue r)"
| "exec_op (Op_proc_resolve env e) r = proc_resolve env e r"
| "exec_op Op_shutdown r = snd (snd (shutdown_locked r))"

fun exec_ops :: "rec_op list \<Rightarrow> recognizer \<Rightarrow> recognizer" where
  "exec_ops [] r = r"
| "exec_ops (op # ops) r = exec_ops ops (exec_op op r)"

text \<open>An environment for concrete runs: only \<open>git\<close> is found on the search path.\<close>

definition example_env :: os_env where
  "example_env =
     \<lparr>create_event_ok = True, heap_store_ok = True,
      search_for_executable = (\<lambda>w. w = ''git''),
      get_extension = (\<lambda>w. if w = ''notes.txt'' then Some ''.txt'' else None),
      reg_open_ok = (\<lambda>ext. False),
      reg_query_more_data = (\<lambda>ext. None)\<rparr>"

lemmas recognizer_defs =
  recognizer_ctor_def entry_clear_def entry_empty_def clear_def usable_def find_def
  set_result_available_def notify_ready_def need_refresh_def store_def enqueue_def
  dequeue_def shutdown_locked_def proc_dequeue_def proc_executable_def proc_resolve_def
  proc_wake_def example_env_def Let_def

subsection \<open>The wait at the end of a line\<close>

text \<open>
  \<open>end_line\<close> reads the clock and waits on the ready event while the worker runs in
  parallel.  What the operating system and the worker answer in each turn of the loop is
  an observation: the tick count read, the result of the wait, and the recognizer as
  seen under the mutex after the wait.  The model returns the waits it issued and its
  calls of \<open>host_reclassify\<close>, or \<open>None\<close> when the observations end while the loop
  still runs.  \<open>DWORD\<close> and \<open>int\<close> are 32-bit words; the signed sum wraps.
\<close>

datatype wait_status = WAIT_OBJECT_0 | WAIT_TIMEOUT | WAIT_FAILED

datatype end_line_action = Wait "32 word" | Host_reclassify

record wait_obs =
  tick_now :: "32 word"
  wait_result :: wait_status
  seen :: recognizer

fun end_line_loop :: "32 word \<Rightarrow> wait_obs list \<Rightarrow> end_line_action list option" where
  "end_line_loop tick_begin [] = None"
| "end_line_loop tick_begin (ob # obs) =
     (let timeout = tick_begin + 2500 - tick_now ob
      in if sint timeout < 0 then Some []
         else if wait_result ob \<noteq> WAIT_OBJECT_0 then Some [Wait timeout]
         else if \<not> m_processing (seen ob) \<or> \<not> usable (seen ob)
           then Some [Wait timeout, Host_reclassify]
         else map_option (\<lambda>acts. Wait timeout # Host_reclassify # acts)
                (end_line_loop tick_begin obs))"


definition elapsed :: "32 word \<Rightarrow> 32 word \<Rightarrow> nat" where
  "elapsed tick_begin tick = unat (tick - tick_begin)"

section \<open>Suggestions\<close>

text \<open>
  Modelled from the spec: the class \<open>match_builder_toolkit\<close>, its maker and
  \<open>get_generation_id\<close> are declared in other files; the toolkit ``associates a
  generation id with the state needed to lazily generate matches (line snapshot,
  end-word offset)'', and it is the pair it is made from.  The static \<open>s_toolkit\<close> is
  the state.  The call into the script is represented by its outcome; it does not assign
  \<open>s_toolkit\<close>.  \<open>set_suggestion\<close>, called for an empty line, belongs to the
  display and is left out.
\<close>

type_synonym cint = "32 word"

record match_builder_toolkit =
  generation_id :: cint
  end_word_offset :: "32 word"

definition make_match_builder_toolkit :: "cint \<Rightarrow> 32 word \<Rightarrow> match_builder_toolkit" where
  "make_match_builder_toolkit gen endword = \<lparr>generation_id = gen, end_word_offset = endword\<rparr>"

definition get_generation_id :: "match_builder_toolkit \<Rightarrow> cint" where
  "get_generation_id toolkit = generation_id toolkit"

definition reset_suggester :: "match_builder_toolkit option \<Rightarrow> match_builder_toolkit option" where
  "reset_suggester s_toolkit = None"

definition get_deferred_matches ::
  "match_builder_toolkit option \<Rightarrow> cint \<Rightarrow> match_builder_toolkit option" where
  "get_deferred_matches s_toolkit gen =
     (case s_toolkit of
        Some toolkit \<Rightarrow> if get_generation_id toolkit = gen then Some toolkit else None
      | None \<Rightarrow> None)"

datatype lua_call = Pcall_failed | Pcall_returned bool

record line_state =
  get_length :: nat
  get_end_word_offset :: "32 word"

definition suggest ::
  "line_state \<Rightarrow> bool \<Rightarrow> cint \<Rightarrow> lua_call \<Rightarrow> match_builder_toolkit option
     \<Rightarrow> bool \<times> match_builder_toolkit option" where
  "suggest line matches gen lua s_toolkit =
     (let s0 = None
      in if get_length line = 0 then (True, s0)
         else
           (let s1 = (if matches then s0
                      else Some (make_match_builder_toolkit gen (get_end_word_offset line)))
            in case lua of
                 Pcall_failed \<Rightarrow> (True, s1)
               | Pcall_returned cancelled \<Rightarrow> (\<not> cancelled, s1)))"

section \<open>The idle driver\<close>

subsection \<open>The C double\<close>

text \<open>
  A \<open>double\<close> is an IEEE 754 binary64 value: \<open>Finite m e\<close> stands for the number
  \<open>m * 2^e\<close> (the doubles are those with \<open>|m| < 2^53\<close> and \<open>e\<close> from -1074 to 971;
  both zeros are \<open>Finite 0 e\<close>), \<open>Infinity True\<close> and \<open>Infinity False\<close> for plus and
  minus infinity.  An arithmetic result is the exact result rounded to the nearest double,
  ties to the even significand, which is the default rounding of the processor:
  \<open>round_to_double\<close> keeps 53 bits of the significand, fewer below the smallest normal
  number, and gives infinity from \<open>2^1024\<close> on.
\<close>

datatype double = Finite int int | Infinity bool | NaN

definition round_to_double :: "int \<Rightarrow> int \<Rightarrow> double" where
  "round_to_double m e =
     (let a = \<bar>m\<bar>;
          s = max (bitlen a - 53) (- 1074 - e)
      in if s \<le> 0 then (if 1024 < bitlen a + e then Infinity (0 < m) else Finite m e)
         else
           (let q = a div 2 ^ nat s;
                rest = a mod 2 ^ nat s;
                half = 2 ^ nat (s - 1);
                q1 = (if half < rest \<or> (rest = half \<and> odd q) then q + 1 else q)
            in if 1024 < bitlen q1 + (e + s) then Infinity (0 < m)
               else Finite (sgn m * q1) (e + s)))"

text \<open>The comparison \<open>sec > 0\<close>; it is false for a NaN.\<close>

definition double_gt_zero :: "double \<Rightarrow> bool" where
  "double_gt_zero x =
     (case x of Finite m e \<Rightarrow> 0 < m | Infinity positive \<Rightarrow> positive | NaN \<Rightarrow> False)"

text \<open>The product \<open>sec * 1000\<close>; the factor 1000 is a double itself.\<close>

definition double_times_1000 :: "double \<Rightarrow> double" where
  "double_times_1000 x =
     (case x of
        Finite m e \<Rightarrow> round_to_double (m * 1000) e
      | Infinity positive \<Rightarrow> Infinity positive
      | NaN \<Rightarrow> NaN)"

text \<open>
  The conversion \<open>unsigned(x)\<close> drops the fraction.  C++ defines no result when the
  truncated value is not an \<open>unsigned\<close>: that is \<open>None\<close>.
\<close>

definition double_to_unsigned :: "double \<Rightarrow> 32 word option" where
  "double_to_unsigned x =
     (case x of
        Finite m e \<Rightarrow>
          (let t = (if 0 \<le> e then m * 2 ^ nat e else sgn m * (\<bar>m\<bar> div 2 ^ nat (- e)))
           in if 0 \<le> t \<and> t < 2 ^ 32 then Some (word_of_int t) else None)
      | Infinity positive \<Rightarrow> None
      | NaN \<Rightarrow> None)"

text \<open>The real number that a finite double stands for.\<close>

definition finite_value :: "int \<Rightarrow> int \<Rightarrow> real" where
  "finite_value m e = of_int m * 2 powr of_int e"

subsection \<open>The driver\<close>

text \<open>
  The script's replies are inputs: \<open>None\<close> and \<open>Call_failed\<close> stand for a failed
  \<open>pcall\<close>, \<open>Not_a_number\<close> for a result that \<open>lua_tonumberx\<close> does not convert.
  \<open>get_timeout\<close> returns \<open>None\<close> where the conversion to \<open>unsigned\<close> has no defined
  result.
\<close>

record lua_input_idle =
  m_enabled :: bool
  m_iterations :: "32 word"

datatype lua_number = Call_failed | Not_a_number | Number double

record script =
  has_coroutines_reply :: "bool option"
  wait_duration_reply :: lua_number

definition INFINITE :: "32 word" where
  "INFINITE = 0xFFFFFFFF"

definition has_coroutines :: "script \<Rightarrow> bool" where
  "has_coroutines sc = (case has_coroutines_reply sc of None \<Rightarrow> False | Some has \<Rightarrow> has)"

definition is_enabled :: "script \<Rightarrow> lua_input_idle \<Rightarrow> bool \<times> lua_input_idle" where
  "is_enabled sc s =
     (if \<not> m_enabled s then (False, s)
      else
        (let s1 = (if \<not> has_coroutines sc then s\<lparr>m_enabled := False\<rparr> else s)
         in (m_enabled s1, s1)))"

definition get_timeout :: "script \<Rightarrow> lua_input_idle \<Rightarrow> 32 word option \<times> lua_input_idle" where
  "get_timeout sc s =
     (let s1 = s\<lparr>m_iterations := m_iterations s + 1\<rparr>;
          (enabled, s2) = is_enabled sc s1
      in if \<not> enabled then (Some INFINITE, s2)
         else
           (case wait_duration_reply sc of
              Call_failed \<Rightarrow> (Some INFINITE, s2)
            | Not_a_number \<Rightarrow> (Some INFINITE, s2)
            | Number sec \<Rightarrow>
                (if double_gt_zero sec then double_to_unsigned (double_times_1000 sec)
                 else Some 0, s2)))"

section \<open>Tracked popen streams\<close>

text \<open>
  The chain \<open>s_head\<close> is the list of its entries from the head on.  A \<open>FILE*\<close> is a
  number, 0 for the null pointer.  \<open>find_info\<close> is \<open>popenrw_info::find\<close>: it returns
  the first entry with the stream, together with the entries before and after it, which
  is what \<open>remove\<close> and the updates through the pointer need.  The results of
  \<open>fclose\<close> and of \<open>pclosewait\<close> (the blocking \<open>_cwait\<close>) are inputs.
  \<open>pclosefile\<close> is given the \<open>FILE*\<close> of the stream it is called on and returns
  the result it pushes together with the calls it made.
\<close>

type_synonym file_ptr = nat

record popenrw_info =
  info_r :: file_ptr
  info_w :: file_ptr
  process_handle :: int
  async :: bool

definition popenrw_info_ctor :: popenrw_info where
  "popenrw_info_ctor = \<lparr>info_r = 0, info_w = 0, process_handle = 0, async = False\<rparr>"

fun find_info ::
  "file_ptr \<Rightarrow> popenrw_info list
     \<Rightarrow> (popenrw_info list \<times> popenrw_info \<times> popenrw_info list) option" where
  "find_info f [] = None"
| "find_info f (p # ps) =
     (if f = info_r p \<or> f = info_w p then Some ([], p, ps)
      else
        (case find_info f ps of
           None \<Rightarrow> None
         | Some (before, q, after) \<Rightarrow> Some (p # before, q, after)))"

definition add_info :: "popenrw_info \<Rightarrow> popenrw_info list \<Rightarrow> popenrw_info list" where
  "add_info p s_head = p # s_head"

datatype popen_action = Fclose file_ptr | Cwait int

definition close_info :: "int \<Rightarrow> file_ptr \<Rightarrow> popenrw_info \<Rightarrow> int \<times> popen_action list \<times> popenrw_info" where
  "close_info fclose_ret f p =
     (if f \<noteq> 0 then
        (let p1 = (if f = info_r p then p\<lparr>info_r := 0\<rparr> else p);
             p2 = (if f = info_w p1 then p1\<lparr>info_w := 0\<rparr> else p1)
         in (fclose_ret, [Fclose f], p2))
      else (- 1, [], p))"

definition get_wait_handle :: "popenrw_info \<Rightarrow> int \<times> popenrw_info" where
  "get_wait_handle p =
     (if info_r p \<noteq> 0 \<or> info_w p \<noteq> 0 then (0, p)
      else (process_handle p, p\<lparr>process_handle := 0\<rparr>))"

definition is_async :: "popenrw_info \<Rightarrow> bool" where
  "is_async p = async p"

datatype lua_result = File_result bool | Exec_result int

definition pclosefile ::
  "int \<Rightarrow> (int \<Rightarrow> int) \<Rightarrow> file_ptr \<Rightarrow> popenrw_info list
     \<Rightarrow> lua_result \<times> popen_action list \<times> popenrw_info list" where
  "pclosefile fclose_ret pclosewait f s_head =
     (case find_info f s_head of
        None \<Rightarrow> (File_result False, [], s_head)
      | Some (before, info, after) \<Rightarrow>
          (case close_info fclose_ret f info of
             (res, acts, info1) \<Rightarrow>
               (case get_wait_handle info1 of
                  (handle, info2) \<Rightarrow>
                    if handle \<noteq> 0 then
                      (let wait = \<not> is_async info2
                       in (Exec_result (if wait then pclosewait handle else 0),
                           acts @ (if wait then [Cwait handle] else []),
                           before @ after))
                    else (File_result (res = 0), acts, before @ info2 # after))))"

definition mentions :: "file_ptr \<Rightarrow> popenrw_info \<Rightarrow> bool" where
  "mentions f p = (f = info_r p \<or> f = info_w p)"

section \<open>Command recognition\<close>

text \<open>
  \<open>os::expand_env\<close> copies the input, replacing each \<open>%name%\<close> whose variable is
  set; the loop below is its \<open>while (iter.more())\<close> with the output and the flag as
  accumulators.
\<close>

lemma length_tl_dropWhile_less:
  "dropWhile P s \<noteq> [] \<Longrightarrow> length (dropWhile Q (tl (dropWhile P s))) < length s"
proof -
  assume ne: "dropWhile P s \<noteq> []"
  have "length (dropWhile Q (tl (dropWhile P s))) \<le> length (tl (dropWhile P s))"
    by (rule length_dropWhile_le)
  also have "\<dots> < length (dropWhile P s)" using ne by (cases "dropWhile P s") simp_all
  also have "\<dots> \<le> length s" by (rule length_dropWhile_le)
  finally show ?thesis .
qed

lemma length_tl_tl_dropWhile_less:
  "dropWhile P s \<noteq> [] \<Longrightarrow> length (tl (dropWhile Q (tl (dropWhile P s)))) < length s"
  using length_tl_dropWhile_less [of P s Q] by simp

function expand_env_loop ::
  "(string \<Rightarrow> string option) \<Rightarrow> string \<Rightarrow> string \<Rightarrow> bool \<Rightarrow> bool \<times> string" where
  "expand_env_loop get_env s out expanded =
     (if s = [] then (expanded, out)
      else
        (let out1 = out @ takeWhile (\<lambda>c. c \<noteq> CHR ''%'') s;
             rest = dropWhile (\<lambda>c. c \<noteq> CHR ''%'') s
         in if rest = [] then (expanded, out1)
            else
              (let var = takeWhile (\<lambda>c. c \<noteq> CHR ''%'') (tl rest);
                   rest2 = dropWhile (\<lambda>c. c \<noteq> CHR ''%'') (tl rest)
               in if rest2 \<noteq> [] \<and> var \<noteq> [] then
                    (case get_env var of
                       None \<Rightarrow>
                         expand_env_loop get_env (tl rest2)
                           (out1 @ CHR ''%'' # var @ [CHR ''%'']) expanded
                     | Some v \<Rightarrow> expand_env_loop get_env (tl rest2) (out1 @ v) True)
                  else expand_env_loop get_env rest2 (out1 @ CHR ''%'' # var) expanded)))"
  by pat_completeness auto

termination
  apply (relation "measure (\<lambda>(get_env, s, out, expanded). length s)")
     apply simp
    apply (simp add: length_tl_tl_dropWhile_less del: length_tl)
   apply (simp add: length_tl_tl_dropWhile_less del: length_tl)
  apply (simp add: length_tl_dropWhile_less del: length_tl)
  done


declare expand_env_loop.simps [simp del]

text \<open>
  \<open>recognize_command\<close> returns the integer it pushes (\<open>None\<close> when it returns
  nothing), the calls it made to the recognizer, and the recognizer afterwards.  The
  separator test, the directory intercepts and the environment are inputs.  Reading
  \<open>word[1]\<close> of a one-character word reads the terminating zero.
\<close>

definition expand_env :: "(string \<Rightarrow> string option) \<Rightarrow> string \<Rightarrow> bool \<times> string" where
  "expand_env get_env inp = expand_env_loop get_env inp [] False"

record shell_env =
  is_separator :: "char \<Rightarrow> bool"
  intercepts_directory :: "string \<Rightarrow> bool"
  os_get_env :: "string \<Rightarrow> string option"
  os_calls :: os_env

definition c_char_at :: "string \<Rightarrow> nat \<Rightarrow> char" where
  "c_char_at s i = (if i < length s then s ! i else CHR 0x00)"

definition is_unc :: "shell_env \<Rightarrow> string \<Rightarrow> bool" where
  "is_unc sh word = (is_separator sh (c_char_at word 0) \<and> is_separator sh (c_char_at word 1))"

definition has_wildcard :: "string \<Rightarrow> bool" where
  "has_wildcard word = (CHR ''*'' \<in> set word \<or> CHR ''?'' \<in> set word)"

datatype recognizer_call = Call_find string | Call_enqueue string string

definition recognize_command ::
  "shell_env \<Rightarrow> string option \<Rightarrow> string option \<Rightarrow> recognizer
     \<Rightarrow> int option \<times> recognizer_call list \<times> recognizer" where
  "recognize_command sh line_arg word_arg r =
     (case (line_arg, word_arg) of
        (Some line, Some word) \<Rightarrow>
          if line = [] \<or> word = [] then (None, [], r)
          else if is_unc sh word then (Some 0, [], r)
          else if intercepts_directory sh line then (Some 1, [], r)
          else
            (case find r word of
               Some cached \<Rightarrow> (Some (sint cached), [Call_find word], r)
             | None \<Rightarrow>
                 (let (expanded, out) = expand_env (os_get_env sh) word;
                      word1 = (if expanded then out else word)
                  in if has_wildcard word1 then (Some (- 1), [Call_find word], r)
                     else
                       (case enqueue (os_calls sh) word word1 r of
                          (True, r1) \<Rightarrow>
                            (Some (sint (- 1 :: cchar)),
                             [Call_find word, Call_enqueue word word1], r1)
                        | (False, r1) \<Rightarrow>
                            (Some 0, [Call_find word, Call_enqueue word word1], r1))))
      | _ \<Rightarrow> (None, [], r))"

definition example_shell :: shell_env where
  "example_shell =
     \<lparr>is_separator = (\<lambda>c. c = CHR ''/'' \<or> c = CHR 0x5C),
      intercepts_directory = (\<lambda>line. False),
      os_get_env = (\<lambda>name. if name = ''EXT'' then Some ''*.cmd'' else None),
      os_calls = example_env\<rparr>"

section \<open>Properties of the recognizer cache\<close>

subsection \<open>What each step preserves\<close>

lemma zombie_set_result_available [simp]:
  "m_zombie (snd (set_result_available a r)) = m_zombie r"
  by (simp add: set_result_available_def Let_def)

lemma zombie_notify_ready [simp]: "m_zombie (notify_ready a r) = m_zombie r"
  by (simp add: notify_ready_def Let_def)

lemma zombie_store [simp]: "m_zombie (snd (store env w c p r)) = m_zombie r"
  by (simp add: store_def)

lemma zombie_exec_op: "m_zombie r \<Longrightarrow> m_zombie (exec_op op r)"
  by (cases op)
     (simp_all add: clear_def enqueue_def usable_def need_refresh_def proc_dequeue_def
        Let_def proc_resolve_def proc_executable_def shutdown_locked_def split: option.splits)

lemma zombie_exec_ops: "m_zombie r \<Longrightarrow> m_zombie (exec_ops ops r)"
  by (induction ops arbitrary: r) (simp_all add: zombie_exec_op)

lemma zombie_find: "m_zombie r \<Longrightarrow> find r key = None"
  by (simp add: find_def usable_def)

lemma zombie_enqueue: "m_zombie r \<Longrightarrow> enqueue env key word r = (False, r)"
  by (simp add: enqueue_def usable_def)

lemma zombie_shutdown: "m_zombie (snd (snd (shutdown_locked r)))"
  by (simp add: shutdown_locked_def Let_def)

text \<open>Woken in the zombie state, the worker takes nothing from the slot.\<close>

lemma zombie_proc_wake:
  "m_zombie r \<Longrightarrow> fst (proc_wake env r) = [] \<and> m_cache (snd (proc_wake env r)) = m_cache r"
  by (simp add: proc_wake_def proc_inner.simps proc_dequeue_def Let_def)

lemma ready_event_set_result_available [simp]:
  "s_ready_event (snd (set_result_available a r)) = s_ready_event r"
  by (simp add: set_result_available_def Let_def)

lemma ready_event_notify_ready [simp]: "s_ready_event (notify_ready a r) = s_ready_event r"
  by (simp add: notify_ready_def Let_def)

lemma ready_event_store [simp]: "s_ready_event (snd (store env w c p r)) = s_ready_event r"
  by (simp add: store_def)

lemma usable_set_result_available [simp]:
  "usable (snd (set_result_available a r)) = usable r"
  by (simp add: usable_def)

lemma usable_notify_ready [simp]: "usable (notify_ready a r) = usable r"
  by (simp add: usable_def)

lemma usable_store [simp]: "usable (snd (store env w c p r)) = usable r"
  by (simp add: usable_def)

lemma usable_proc_resolve [simp]: "usable (proc_resolve env e r) = usable r"
  by (simp add: proc_resolve_def proc_executable_def Let_def split: option.splits)

lemma cache_set_result_available [simp]:
  "m_cache (snd (set_result_available a r)) = m_cache r"
  by (simp add: set_result_available_def Let_def)

lemma cache_notify_ready [simp]: "m_cache (notify_ready a r) = m_cache r"
  by (simp add: notify_ready_def Let_def)

lemma pending_set_result_available [simp]:
  "m_pending (snd (set_result_available a r)) = m_pending r"
  by (simp add: set_result_available_def Let_def)

lemma pending_notify_ready [simp]: "m_pending (notify_ready a r) = m_pending r"
  by (simp add: notify_ready_def Let_def)

lemma cache_store_other:
  "w \<noteq> key \<Longrightarrow> m_cache (snd (store env w c p r)) key = m_cache r key"
  by (simp add: store_def)

lemma cache_store_pending [simp]:
  "m_cache (snd (store env w c True r)) = m_cache r"
  by (simp add: store_def)

lemma cache_proc_resolve_other:
  "m_key e \<noteq> key \<Longrightarrow> m_cache (proc_resolve env e r) key = m_cache r key"
  by (simp add: proc_resolve_def proc_executable_def cache_store_other Let_def
           split: option.splits)

text \<open>What the worker's resolution leaves in the confirmed map under the key it resolved.\<close>

lemma cache_proc_resolve_same:
  assumes "usable r"
  shows "m_cache (proc_resolve env e r) (m_key e) =
     (if search_for_executable env (m_word e)
         \<or> (case get_extension env (m_word e) of
               None \<Rightarrow> False
             | Some ext \<Rightarrow>
                 reg_open_ok env ext
                 \<and> (reg_query_more_data env ext = Some REG_SZ
                      \<or> reg_query_more_data env ext = Some REG_EXPAND_SZ))
      then (if heap_store_ok env \<or> m_cache r (m_key e) \<noteq> None then Some 1 else None)
      else if get_extension env (m_word e) = None
      then (if heap_store_ok env \<or> m_cache r (m_key e) \<noteq> None then Some (- 1) else None)
      else m_cache r (m_key e))"
  using assms
  by (auto simp: proc_resolve_def proc_executable_def store_def Let_def
           split: option.splits)

lemma pending_enqueue_same:
  assumes "usable r" and "m_event r \<or> create_event_ok env" and "heap_store_ok env"
  shows "m_pending (snd (enqueue env key word r)) key = Some (- 1)"
  using assms by (auto simp: enqueue_def Let_def usable_def store_def set_result_available_def)

lemma pending_enqueue_other:
  assumes "key \<noteq> k"
  shows "m_pending (snd (enqueue env key word r)) k = m_pending r k"
  using assms by (auto simp: enqueue_def Let_def usable_def store_def set_result_available_def)

text \<open>An accepted enqueue: what it leaves in the state.\<close>

lemma enqueue_accepted:
  assumes "usable r" and "m_event r \<or> create_event_ok env"
  shows "fst (enqueue env key word r)"
    and "usable (snd (enqueue env key word r))"
    and "m_event (snd (enqueue env key word r))"
    and "m_queue (snd (enqueue env key word r)) = \<lparr>m_key = key, m_word = word\<rparr>"
    and "m_cache (snd (enqueue env key word r)) = m_cache r"
  using assms by (auto simp: enqueue_def Let_def usable_def store_def set_result_available_def)

text \<open>The worker's inner loop with a filled slot takes that entry and nothing else.\<close>

lemma proc_inner_filled:
  assumes "usable r" and "\<not> entry_empty (m_queue r)"
  shows "fst (proc_inner env r) = [m_queue r]"
    and "m_pending (snd (proc_inner env r)) = Map.empty"
    and "m_cache (snd (proc_inner env r)) key
         = m_cache (proc_resolve env (m_queue r) r) key"
    and "usable (snd (proc_inner env r))"
proof -
  let ?r1 = "r\<lparr>m_queue := entry_clear, m_processing := True\<rparr>"
  have d1: "proc_dequeue r = (Some (m_queue r), ?r1)"
    using assms by (simp add: proc_dequeue_def dequeue_def usable_def)
  let ?r2 = "proc_resolve env (m_queue r) ?r1"
  have u1: "usable ?r1" using assms by (simp add: usable_def)
  have u2: "usable ?r2" using u1 by simp
  have q2: "entry_empty (m_queue ?r2)" by (simp add: entry_empty_def entry_clear_def)
  have d2: "fst (proc_dequeue ?r2) = None"
    using q2 by (simp add: proc_dequeue_def dequeue_def)
  then obtain r3 where r3: "proc_dequeue ?r2 = (None, r3)"
    by (cases "proc_dequeue ?r2") simp
  have i: "proc_inner env r = ([m_queue r], r3)"
    by (subst proc_inner.simps, simp add: d1, subst proc_inner.simps, simp add: r3)
  have r3': "r3 = snd (proc_dequeue ?r2)" using r3 by simp
  show "fst (proc_inner env r) = [m_queue r]" using i by simp
  show "m_pending (snd (proc_inner env r)) = Map.empty"
    using q2 u2 by (simp add: i r3' proc_dequeue_def dequeue_def usable_def Let_def)
  show "usable (snd (proc_inner env r))"
    using q2 u2 by (simp add: i r3' proc_dequeue_def dequeue_def usable_def Let_def notify_ready_def)
  have "m_cache r3 key = m_cache ?r2 key"
    using q2 u2 by (simp add: r3' proc_dequeue_def dequeue_def usable_def Let_def)
  also have "\<dots> = m_cache (proc_resolve env (m_queue r) r) key"
    by (simp add: proc_resolve_def proc_executable_def store_def usable_def Let_def
          set_result_available_def notify_ready_def split: option.splits)
  finally show "m_cache (snd (proc_inner env r)) key
         = m_cache (proc_resolve env (m_queue r) r) key" by (simp add: i)
qed

subsection \<open>The claims\<close>

text \<open>
  Claim C2.  Start from a usable cache whose wake event exists or can be created, and
  take two different keys \<open>w1\<close> and \<open>w2\<close>, \<open>w2\<close> not empty and \<open>w1\<close> not yet
  confirmed.  Both calls of \<open>enqueue\<close> are accepted.  When the worker then wakes
  and runs its inner loop, the entries it takes are exactly the one for \<open>w2\<close>: the
  slot held only the last request.  Before that, \<open>find w1\<close> shows the provisional
  entry of \<open>w1\<close> (when the allocation for it succeeded); when the loop has drained the
  slot the pending map is empty and \<open>find w1\<close> is absent.  The worker has changed the
  confirmed map under no key but \<open>w2\<close>, and \<open>find w2\<close> is the result of resolving
  \<open>word2\<close>: 1 when the word is found on the search path or its extension has an open
  command, -1 when it is not found and has no extension, each provided the key could be
  allocated or was confirmed before; a word that is not found and whose extension has
  no open command is stored in neither map, and \<open>find w2\<close> is what it was in the
  confirmed map before.
\<close>

theorem single_slot_last_request_wins:
  assumes "usable r" and "m_event r \<or> create_event_ok env"
    and "w1 \<noteq> w2" and "w2 \<noteq> []" and "m_cache r w1 = None"
  shows "fst (enqueue env w1 word1 r)
     \<and> fst (enqueue env w2 word2 (snd (enqueue env w1 word1 r)))
     \<and> (heap_store_ok env \<longrightarrow>
          find (snd (enqueue env w2 word2 (snd (enqueue env w1 word1 r)))) w1 = Some (- 1))
     \<and> fst (proc_wake env' (snd (enqueue env w2 word2 (snd (enqueue env w1 word1 r)))))
         = [\<lparr>m_key = w2, m_word = word2\<rparr>]
     \<and> m_pending (snd (proc_wake env' (snd (enqueue env w2 word2 (snd (enqueue env w1 word1 r))))))
         = Map.empty
     \<and> find (snd (proc_wake env' (snd (enqueue env w2 word2 (snd (enqueue env w1 word1 r)))))) w1
         = None
     \<and> (\<forall>key. key \<noteq> w2 \<longrightarrow>
          m_cache (snd (proc_wake env' (snd (enqueue env w2 word2 (snd (enqueue env w1 word1 r))))))
            key = m_cache r key)
     \<and> find (snd (proc_wake env' (snd (enqueue env w2 word2 (snd (enqueue env w1 word1 r)))))) w2
         = (if search_for_executable env' word2
               \<or> (case get_extension env' word2 of
                     None \<Rightarrow> False
                   | Some ext \<Rightarrow>
                       reg_open_ok env' ext
                       \<and> (reg_query_more_data env' ext = Some REG_SZ
                            \<or> reg_query_more_data env' ext = Some REG_EXPAND_SZ))
            then (if heap_store_ok env' \<or> m_cache r w2 \<noteq> None then Some 1 else None)
            else if get_extension env' word2 = None
            then (if heap_store_ok env' \<or> m_cache r w2 \<noteq> None then Some (- 1) else None)
            else m_cache r w2)"
proof -
  let ?r1 = "snd (enqueue env w1 word1 r)"
  let ?r2 = "snd (enqueue env w2 word2 ?r1)"
  let ?r2' = "?r2\<lparr>m_event_signaled := False\<rparr>"
  note a1 = enqueue_accepted [OF assms(1,2), of w1 word1]
  have ev1: "m_event ?r1 \<or> create_event_ok env" using a1(3) by simp
  note a2 = enqueue_accepted [OF a1(2) ev1, of w2 word2]
  have u: "usable ?r2'" using a2(2) by (simp add: usable_def)
  have q: "m_queue ?r2' = \<lparr>m_key = w2, m_word = word2\<rparr>" using a2(4) by simp
  have ne: "\<not> entry_empty (m_queue ?r2')" using assms(4) by (simp add: q entry_empty_def)
  note p = proc_inner_filled [OF u ne, of env']
  have c: "m_cache (snd (proc_inner env' ?r2')) w1 = None"
    using assms(3,5) a1(5) a2(5)
    by (simp add: p(3) q cache_proc_resolve_other)
  have f: "find (snd (proc_inner env' ?r2')) w1 = None"
    by (simp add: find_def c p(2))
  have before: "find ?r2 w1 = Some (- 1)" if "heap_store_ok env"
  proof -
    have "m_pending ?r1 w1 = Some (- 1)"
      by (rule pending_enqueue_same [OF assms(1,2) that])
    then have "m_pending ?r2 w1 = Some (- 1)"
      using assms(3) by (simp add: pending_enqueue_other)
    moreover have "m_cache ?r2 w1 = None" using assms(5) a1(5) a2(5) by simp
    ultimately show ?thesis using a2(2) by (simp add: find_def)
  qed
  have c0: "m_cache ?r2' = m_cache r" using a1(5) a2(5) by simp
  have others: "m_cache (snd (proc_inner env' ?r2')) key = m_cache r key" if "key \<noteq> w2" for key
    using that by (simp add: p(3) q cache_proc_resolve_other c0)
  have "find (snd (proc_inner env' ?r2')) w2 = m_cache (snd (proc_inner env' ?r2')) w2"
    using p(4) by (simp add: find_def p(2) split: option.splits)
  also have "\<dots> = m_cache (proc_resolve env' \<lparr>m_key = w2, m_word = word2\<rparr> ?r2') w2"
    by (simp add: p(3) q)
  finally have w2: "find (snd (proc_inner env' ?r2')) w2
      = m_cache (proc_resolve env' \<lparr>m_key = w2, m_word = word2\<rparr> ?r2') w2" .
  note w2' = w2 [unfolded cache_proc_resolve_same [OF u, of env' "\<lparr>m_key = w2, m_word = word2\<rparr>", simplified] c0]
  show ?thesis
    using a1(1) a2(1) p(1) p(2) f q before others w2' by (simp add: proc_wake_def)
qed

theorem single_slot_last_request_wins_witness:
  "find (snd (enqueue example_env ''git'' ''git''
             (snd (enqueue example_env ''gi'' ''gi'' (recognizer_ctor True))))) ''gi''
     = Some (- 1)
   \<and> fst (proc_wake example_env
          (snd (enqueue example_env ''git'' ''git''
             (snd (enqueue example_env ''gi'' ''gi'' (recognizer_ctor True))))))
     = [\<lparr>m_key = ''git'', m_word = ''git''\<rparr>]
   \<and> find (snd (proc_wake example_env
          (snd (enqueue example_env ''git'' ''git''
             (snd (enqueue example_env ''gi'' ''gi'' (recognizer_ctor True))))))) ''gi''
     = None
   \<and> find (snd (proc_wake example_env
          (snd (enqueue example_env ''git'' ''git''
             (snd (enqueue example_env ''gi'' ''gi'' (recognizer_ctor True))))))) ''git''
     = Some 1"
  using single_slot_last_request_wins
          [of "recognizer_ctor True" example_env "''gi''" "''git''" "''gi''" "''git''" example_env]
  by (simp add: usable_def recognizer_ctor_def example_env_def)

text \<open>
  The two maps themselves can hold the same key for a while: \<open>store\<close> writes one map
  and leaves the other alone.  After \<open>enqueue\<close> has recorded the provisional entry and
  the worker has taken the entry and stored its result, \<open>git\<close> is in the confirmed map
  with 1 and still in the pending map with -1.  The pending entry goes when the worker
  finds the slot empty.
\<close>

lemma store_keeps_pending_entry:
  "m_cache (exec_ops [Op_enqueue example_env ''git'' ''git'', Op_proc_dequeue,
                      Op_proc_resolve example_env \<lparr>m_key = ''git'', m_word = ''git''\<rparr>]
              (recognizer_ctor True)) ''git'' = Some 1
   \<and> m_pending (exec_ops [Op_enqueue example_env ''git'' ''git'', Op_proc_dequeue,
                      Op_proc_resolve example_env \<lparr>m_key = ''git'', m_word = ''git''\<rparr>]
              (recognizer_ctor True)) ''git'' = Some (- 1)"
  by (simp add: recognizer_defs)

lemma drained_pending_empty:
  "fst (proc_dequeue r) = None \<Longrightarrow> m_pending (snd (proc_dequeue r)) = Map.empty"
  by (auto simp: proc_dequeue_def Let_def split: prod.splits option.splits if_splits)

text \<open>
  Claim C3.  The consumer reaches the maps through \<open>find\<close> only, and in every state
  of a usable cache \<open>find\<close> answers from one map: from the confirmed map whenever the
  key is there, whatever the pending map holds, and from the pending map only when the
  key is not confirmed.  In particular, when a key has a pending entry and the worker
  stores a confirmed classification for it, \<open>find\<close> returns the confirmed
  classification and no longer the pending one.
\<close>

theorem find_answers_from_one_map:
  assumes "usable r"
  shows "(m_cache r key = Some c \<longrightarrow> find r key = Some c)
     \<and> (m_cache r key = None \<longrightarrow> find r key = m_pending r key)
     \<and> (find r key = Some c \<longrightarrow>
          m_cache r key = Some c \<or> (m_cache r key = None \<and> m_pending r key = Some c))
     \<and> (m_pending r key = Some p \<and> fst (store env key c False r) \<longrightarrow>
          find (snd (store env key c False r)) key = Some c)"
  using assms by (auto simp: find_def store_def usable_def split: option.splits if_splits)

theorem find_answers_from_one_map_witness:
  "find (exec_ops [Op_enqueue example_env ''git'' ''git'', Op_proc_dequeue]
              (recognizer_ctor True)) ''git'' = Some (- 1)
   \<and> find (snd (store example_env ''git'' 1 False
         (exec_ops [Op_enqueue example_env ''git'' ''git'', Op_proc_dequeue]
              (recognizer_ctor True)))) ''git'' = Some 1"
  using find_answers_from_one_map
          [where r = "exec_ops [Op_enqueue example_env ''git'' ''git'', Op_proc_dequeue]
                        (recognizer_ctor True)"
             and key = "''git''" and c = 1 and p = "- 1" and env = example_env]
  by (simp add: recognizer_defs)

text \<open>
  Once \<open>shutdown\<close> has run its block under the mutex, and after any further steps of
  the main thread and of the worker, \<open>find\<close> is absent for every key and \<open>enqueue\<close>
  returns false and leaves the state alone.  The block signals the wake event when
  there is one and takes the thread object.
\<close>

lemma zombie_is_terminal:
  "find (exec_ops ops (snd (snd (shutdown_locked r)))) key = None
   \<and> enqueue env key word (exec_ops ops (snd (snd (shutdown_locked r))))
       = (False, exec_ops ops (snd (snd (shutdown_locked r))))
   \<and> fst (shutdown_locked r) = (if m_event r then [SetEvent_m_event] else [])
   \<and> fst (snd (shutdown_locked r)) = m_thread r
   \<and> m_event_signaled (snd (snd (shutdown_locked r))) = (m_event r \<or> m_event_signaled r)
   \<and> \<not> m_thread (snd (snd (shutdown_locked r)))"
proof -
  have z: "m_zombie (exec_ops ops (snd (snd (shutdown_locked r))))"
    by (rule zombie_exec_ops) (rule zombie_shutdown)
  have "fst (shutdown_locked r) = (if m_event r then [SetEvent_m_event] else [])"
    by (simp add: shutdown_locked_def clear_def Let_def)
  moreover have "fst (snd (shutdown_locked r)) = m_thread r"
    by (simp add: shutdown_locked_def clear_def Let_def)
  moreover have "m_event_signaled (snd (snd (shutdown_locked r))) = (m_event r \<or> m_event_signaled r)"
    by (simp add: shutdown_locked_def clear_def Let_def)
  moreover have "\<not> m_thread (snd (snd (shutdown_locked r)))"
    by (simp add: shutdown_locked_def clear_def Let_def)
  ultimately show ?thesis
    using zombie_find [OF z] zombie_enqueue [OF z] by simp
qed

text \<open>
  The thread function does not return, from any state and in any environment: if it
  returned after some number of turns of its outer loop, it would have to return after
  fewer, and no turn returns.
\<close>

lemma proc_never_returns: "proc env r = None"
proof (cases "proc env r")
  case None
  then show ?thesis .
next
  case (Some final)
  have False
  proof (rule proc.raw_induct [where P = "\<lambda>env r final. False"])
    show "proc env r = Some final" by (rule Some)
  next
    fix turn env' r' final'
    assume "\<And>env r final. turn env r = Some final \<Longrightarrow> False"
      and "turn env' (snd (proc_wake env' r')) = Some final'"
    then show False by blast
  qed
  then show ?thesis ..
qed

text \<open>So \<open>shutdown\<close> returns exactly when no worker thread was ever started.\<close>

lemma shutdown_returns_iff: "(shutdown env r = None) = m_thread r"
  by (simp add: shutdown_def proc_never_returns shutdown_locked_def clear_def Let_def)

text \<open>
  Claim C4 against the code.  The claim has \<open>shutdown\<close> wake the worker and join it
  before destruction completes.  Take the recognizer after its first accepted
  \<open>enqueue\<close>, which started the worker.  \<open>shutdown\<close> signals the wake event and joins;
  the woken worker sees \<open>m_zombie\<close>, leaves its inner loop and waits again, so the join
  does not return, the wake event is never closed and the destructor does not complete.
\<close>

theorem shutdown_blocks_on_started_worker:
  "fst (enqueue example_env ''git'' ''git'' (recognizer_ctor True))
   \<and> m_thread (snd (enqueue example_env ''git'' ''git'' (recognizer_ctor True)))
   \<and> shutdown example_env (snd (enqueue example_env ''git'' ''git'' (recognizer_ctor True))) = None
   \<and> shutdown example_env (recognizer_ctor True) = Some ([], clear (recognizer_ctor True)\<lparr>m_zombie := True\<rparr>)"
proof -
  have t: "m_thread (snd (enqueue example_env ''git'' ''git'' (recognizer_ctor True)))"
    by (simp add: recognizer_defs)
  have "shutdown example_env (snd (enqueue example_env ''git'' ''git'' (recognizer_ctor True))) = None"
    using t by (simp only: shutdown_returns_iff)
  moreover have "fst (enqueue example_env ''git'' ''git'' (recognizer_ctor True))"
    by (simp add: recognizer_defs)
  moreover have "shutdown example_env (recognizer_ctor True)
                 = Some ([], clear (recognizer_ctor True)\<lparr>m_zombie := True\<rparr>)"
    by (simp add: shutdown_def recognizer_defs)
  ultimately show ?thesis using t by simp
qed

text \<open>
  Claim C5.  For every state of the recognizer, whether or not the worker is in the
  middle of a resolution (\<open>m_processing\<close>, a filled work slot), \<open>find\<close> on the state
  that \<open>clear\<close> returns is absent for every key, so also for each key that was confirmed
  or pending before; both maps are empty and the allocator holds nothing.
\<close>

theorem clear_resets_state:
  "find (clear r) key = None
   \<and> m_cache (clear r) = Map.empty
   \<and> m_pending (clear r) = Map.empty
   \<and> m_heap (clear r) = []"
  by (simp add: clear_def find_def)

text \<open>
  A result that the worker stores after the \<open>clear\<close> is entered again under its key.
\<close>

lemma store_after_clear:
  "usable r \<Longrightarrow> heap_store_ok env \<Longrightarrow> find (snd (store env key c False (clear r))) key = Some c"
  by (simp add: find_def store_def clear_def usable_def)

text \<open>
  Claim C10, as stated: \<open>need_refresh\<close> always resets the ready event.  It fails.
  The worker takes and resolves \<open>git\<close>, the main thread consumes the result, and the
  worker then finds the slot empty and calls \<open>notify_ready(false)\<close>, which signals the
  ready event without setting the flag.  The next \<open>need_refresh\<close> returns false and
  leaves the event signalled.
\<close>

theorem need_refresh_keeps_event_counterexample:
  "\<not> fst (need_refresh
        (exec_ops [Op_enqueue example_env ''git'' ''git'', Op_proc_dequeue,
                   Op_proc_resolve example_env \<lparr>m_key = ''git'', m_word = ''git''\<rparr>,
                   Op_need_refresh, Op_proc_dequeue]
           (recognizer_ctor True)))
   \<and> s_ready_signaled (snd (need_refresh
        (exec_ops [Op_enqueue example_env ''git'' ''git'', Op_proc_dequeue,
                   Op_proc_resolve example_env \<lparr>m_key = ''git'', m_word = ''git''\<rparr>,
                   Op_need_refresh, Op_proc_dequeue]
           (recognizer_ctor True))))"
  by (simp add: recognizer_defs)

text \<open>
  Claim C10, amended.  \<open>need_refresh\<close> returns the value of the result-available
  flag and leaves the flag cleared, so a second call straight after returns false.  It
  resets the ready event exactly when the flag was set and the event exists; otherwise
  the event keeps its state.
\<close>

theorem need_refresh_consumes_flag:
  "fst (need_refresh r) = m_result_available r
   \<and> \<not> m_result_available (snd (need_refresh r))
   \<and> \<not> fst (need_refresh (snd (need_refresh r)))
   \<and> s_ready_signaled (snd (need_refresh r))
       = (if m_result_available r \<and> s_ready_event r then False else s_ready_signaled r)"
  by (simp add: need_refresh_def set_result_available_def Let_def)

subsection \<open>Arithmetic of the timeout\<close>

lemma uint_budget_diff:
  fixes d :: "32 word"
  shows "uint (2500 - d) = take_bit 32 (2500 - uint d)"
  by (simp add: uint_word_ariths take_bit_eq_mod)

lemma budget_range_signed:
  fixes x :: int
  shows "0 \<le> x \<Longrightarrow> x < 2147483648 \<Longrightarrow> - (2 ^ 31) \<le> 2500 - x \<and> 2500 - x < 2 ^ 31"
  by simp


lemma sint_budget:
  fixes d :: "32 word"
  assumes "uint d < 2147483648"
  shows "sint (2500 - d) = 2500 - uint d"
proof -
  have range: "- (2 ^ 31) \<le> 2500 - uint d \<and> 2500 - uint d < 2 ^ 31"
    by (rule budget_range_signed [OF uint_ge_0 assms])
  have "sint (2500 - d) = signed_take_bit 31 (uint (2500 - d))"
    by (simp add: sint_uint)
  also have "\<dots> = signed_take_bit 31 (2500 - uint d)"
    by (simp only: uint_budget_diff signed_take_bit_take_bit) simp
  also have "\<dots> = 2500 - uint d"
    using range by (simp only: signed_take_bit_int_eq_self_iff)
  finally show ?thesis .
qed


lemma uint_elapsed: "uint (tn - tb) = int (elapsed tb tn)"
  by (simp only: elapsed_def uint_nat)

lemma timeout_sint:
  assumes "elapsed tb tn < 2147483648"
  shows "sint (tb + 2500 - tn) = 2500 - int (elapsed tb tn)"
proof -
  have "uint (tn - tb) < 2147483648"
    using assms by (simp only: uint_elapsed)
  from sint_budget [OF this] have h: "sint (2500 - (tn - tb)) = 2500 - int (elapsed tb tn)"
    by (simp only: uint_elapsed)
  have eq: "tb + 2500 - tn = 2500 - (tn - tb)" by simp
  show ?thesis unfolding eq by (rule h)
qed


text \<open>
  However often the ready event is reported, the loop stops at the first tick read past
  the budget.
\<close>

lemma end_line_loop_over_budget:
  assumes "2500 < elapsed tick_begin (tick_now ob)"
    and "elapsed tick_begin (tick_now ob) < 2147483648"
  shows "end_line_loop tick_begin (ob # obs) = Some []"
  using assms(1) timeout_sint [OF assms(2)] by simp




section \<open>Properties of the suggester\<close>

text \<open>
  Claim C1.  Two requests with different generation ids \<open>g1\<close> and \<open>g2\<close>: after the
  second has begun, \<open>get_deferred_matches g1\<close> is absent.  When the second request
  defers its matches (the line is not empty and no matches were supplied),
  \<open>get_deferred_matches g2\<close> is the toolkit made for \<open>g2\<close>; and in any state the
  active toolkit is returned for its own generation id.  Absence is the only other
  result: there is no error.
\<close>

theorem stale_generation_rejected:
  assumes "g1 \<noteq> g2"
  shows "get_deferred_matches
           (snd (suggest line2 matches2 g2 lua2 (snd (suggest line1 matches1 g1 lua1 s)))) g1 = None
     \<and> (get_length line2 \<noteq> 0 \<and> \<not> matches2 \<longrightarrow>
          get_deferred_matches
            (snd (suggest line2 matches2 g2 lua2 (snd (suggest line1 matches1 g1 lua1 s)))) g2
          = Some (make_match_builder_toolkit g2 (get_end_word_offset line2)))
     \<and> (\<forall>toolkit. s = Some toolkit \<longrightarrow>
          get_deferred_matches s (get_generation_id toolkit) = Some toolkit)"
  using assms
  by (auto simp: get_deferred_matches_def suggest_def Let_def make_match_builder_toolkit_def
        get_generation_id_def split: lua_call.splits)

theorem stale_generation_rejected_witness:
  "get_deferred_matches
     (snd (suggest \<lparr>get_length = 7, get_end_word_offset = 4\<rparr> False 2 (Pcall_returned False)
        (snd (suggest \<lparr>get_length = 6, get_end_word_offset = 4\<rparr> False 1 (Pcall_returned False)
           None)))) 1 = None
   \<and> get_deferred_matches
     (snd (suggest \<lparr>get_length = 7, get_end_word_offset = 4\<rparr> False 2 (Pcall_returned False)
        (snd (suggest \<lparr>get_length = 6, get_end_word_offset = 4\<rparr> False 1 (Pcall_returned False)
           None)))) 2 = Some \<lparr>generation_id = 2, end_word_offset = 4\<rparr>"
  using stale_generation_rejected
          [of 1 2 "\<lparr>get_length = 7, get_end_word_offset = 4\<rparr>" False "Pcall_returned False"
              "\<lparr>get_length = 6, get_end_word_offset = 4\<rparr>" False "Pcall_returned False" None]
  by (simp add: make_match_builder_toolkit_def)

section \<open>Properties of the idle driver\<close>

subsection \<open>Rounding and truncation\<close>

lemma succ_div_cases:
  fixes q d :: int
  assumes "0 < d"
  shows "(q + 1) div d = q div d \<or> (q + 1) div d = q div d + 1"
proof -
  have lo: "q div d \<le> (q + 1) div d" by (rule zdiv_mono1) (use assms in simp_all)
  have "(q + 1) div d \<le> (q + d) div d" by (rule zdiv_mono1) (use assms in simp_all)
  also have "\<dots> = q div d + 1" using assms by simp
  finally show ?thesis using lo by linarith
qed

lemma bitlen_le_of_less_power:
  fixes x :: int
  assumes "x < 2 ^ n"
  shows "bitlen x \<le> int n"
  using assms by (simp add: bitlen_le_iff_power)

lemma to_unsigned_finite_nonneg:
  assumes "0 \<le> q" and "0 < k" and "q div 2 ^ nat k < 2 ^ 32"
  shows "double_to_unsigned (Finite q (- k)) = Some (word_of_int (q div 2 ^ nat k))"
proof -
  have "sgn q * (\<bar>q\<bar> div 2 ^ nat k) = q div 2 ^ nat k"
    using assms(1) by (cases "q = 0") simp_all
  moreover have "0 \<le> q div 2 ^ nat k" using assms(1) by (simp add: pos_imp_zdiv_nonneg_iff)
  ultimately show ?thesis using assms(2,3) by (simp add: double_to_unsigned_def Let_def)
qed

lemma div_less_power_bound:
  fixes q d c :: int
  assumes "0 < d" and "q div d < c"
  shows "q < c * d"
proof -
  have "q = d * (q div d) + q mod d" by simp
  moreover have "q mod d < d" using assms(1) by simp
  moreover have "d * (q div d) \<le> d * (c - 1)" using assms by (intro mult_left_mono) simp_all
  ultimately have "q < d * (c - 1) + d" by linarith
  then show ?thesis by (simp add: algebra_simps)
qed

lemma round_exact:
  assumes M: "0 < M"
    and f: "f = (if 0 \<le> e then M * 2 ^ nat e else M div 2 ^ nat (- e))"
    and b53: "bitlen M \<le> 53" and e1074: "- 1074 \<le> e" and f32: "f < 2 ^ 32"
  shows "double_to_unsigned (round_to_double M e) = Some (word_of_int f)"
proof -
  have f0: "0 \<le> f" using M by (simp add: f pos_imp_zdiv_nonneg_iff)
  have no_over: "\<not> 1024 < bitlen M + e"
  proof (cases "0 \<le> e")
    case True
    then have "M * 2 ^ nat e < 2 ^ 32" using f32 f by simp
    then have "bitlen (M * 2 ^ nat e) \<le> 32" using bitlen_le_of_less_power [of _ 32] by simp
    then show ?thesis using M True by simp
  next
    case False
    then show ?thesis using b53 by simp
  qed
  have r: "round_to_double M e = Finite M e"
    using b53 e1074 no_over M by (simp add: round_to_double_def Let_def)
  have t: "(if 0 \<le> e then M * 2 ^ nat e else sgn M * (\<bar>M\<bar> div 2 ^ nat (- e))) = f"
    using M by (simp add: f)
  have "double_to_unsigned (Finite M e) = Some (word_of_int f)"
    unfolding double_to_unsigned_def double.case Let_def t using f0 f32 by simp
  then show ?thesis using r by simp
qed

lemma round_bracket:
  assumes M: "0 < M"
    and f: "f = (if 0 \<le> e then M * 2 ^ nat e else M div 2 ^ nat (- e))"
    and range: "f + 1 < 2 ^ 32"
  shows "double_to_unsigned (round_to_double M e) = Some (word_of_int f)
       \<or> double_to_unsigned (round_to_double M e) = Some (word_of_int (f + 1))"
proof -
  define s where "s = max (bitlen M - 53) (- 1074 - e)"
  have f0: "0 \<le> f" using M by (simp add: f pos_imp_zdiv_nonneg_iff)
  show ?thesis
  proof (cases "s \<le> 0")
    case True
    then have b53: "bitlen M \<le> 53" and e1074: "- 1074 \<le> e" by (simp_all add: s_def)
    have f32: "f < 2 ^ 32" using range by simp
    show ?thesis using round_exact [OF M f b53 e1074 f32] by simp
  next
    case False
    then have s0: "0 < s" by simp
    have es: "e + s < 0"
    proof (rule ccontr)
      assume "\<not> e + s < 0"
      then have ge: "0 \<le> e + s" by simp
      then have s_eq: "s = bitlen M - 53" by (simp add: s_def max_def split: if_splits)
      have lo: "2 ^ nat (bitlen M - 1) \<le> M" using bitlen_bounds [OF M] by simp
      have "nat (bitlen M - 1) = nat s + 52" using s0 s_eq by simp
      then have lo2: "(2::int) ^ 52 * 2 ^ nat s \<le> M" using lo by (simp add: power_add mult.commute)
      have "(2::int) ^ 52 \<le> f"
      proof (cases "0 \<le> e")
        case True
        have a: "(2::int) ^ 52 \<le> 2 ^ 52 * 2 ^ nat s" by simp
        have b: "(2::int) ^ 52 \<le> M" by (rule order_trans [OF a lo2])
        have c: "M \<le> M * 2 ^ nat e" using M by simp
        have "(2::int) ^ 52 \<le> M * 2 ^ nat e" by (rule order_trans [OF b c])
        then show ?thesis using True by (simp only: f if_True)
      next
        case False
        then have "nat (- e) \<le> nat s" using ge by simp
        then have "(2::int) ^ nat (- e) \<le> 2 ^ nat s" by (simp add: power_increasing)
        then have a: "(2::int) ^ 52 * 2 ^ nat (- e) \<le> 2 ^ 52 * 2 ^ nat s"
          by (intro mult_left_mono) simp_all
        have "(2::int) ^ 52 * 2 ^ nat (- e) \<le> M" by (rule order_trans [OF a lo2])
        then have "((2::int) ^ 52 * 2 ^ nat (- e)) div 2 ^ nat (- e) \<le> M div 2 ^ nat (- e)"
          by (intro zdiv_mono1) simp_all
        then show ?thesis using False by (simp add: f)
      qed
      then show False using range by simp
    qed
    define k where "k = - (e + s)"
    have k0: "0 < k" using es by (simp add: k_def)
    have eneg: "\<not> 0 \<le> e" using es s0 by simp
    have ne: "nat (- e) = nat s + nat k" using s0 k0 by (simp add: k_def nat_add_distrib)
    define q where "q = M div 2 ^ nat s"
    have q0: "0 \<le> q" using M by (simp add: q_def pos_imp_zdiv_nonneg_iff)
    have fq: "f = q div 2 ^ nat k"
      using eneg by (simp add: f ne power_add q_def zdiv_zmult2_eq)
    define q1 where "q1 = (if 2 ^ nat (s - 1) < M mod 2 ^ nat s
                              \<or> (M mod 2 ^ nat s = 2 ^ nat (s - 1) \<and> odd q) then q + 1 else q)"
    have q1_cases: "q1 = q \<or> q1 = q + 1" by (simp add: q1_def)
    have q1_0: "0 \<le> q1" using q0 q1_cases by auto
    have t_cases: "q1 div 2 ^ nat k = f \<or> q1 div 2 ^ nat k = f + 1"
      using q1_cases succ_div_cases [of "2 ^ nat k" q] by (auto simp: fq)
    define P where "P = (2::int) ^ nat k"
    have P0: "0 < P" by (simp add: P_def)
    have "q div P < 2 ^ 32" using range fq by (simp add: P_def)
    then have qb: "q < 2 ^ 32 * P" using P0 by (intro div_less_power_bound)
    have "q1 < 2 ^ 33 * P" using qb q1_cases P0 by auto
    then have "q1 < 2 ^ (33 + nat k)" by (simp add: P_def power_add)
    then have "bitlen q1 \<le> int (33 + nat k)" by (rule bitlen_le_of_less_power)
    then have no_over: "\<not> 1024 < bitlen q1 + (e + s)" using k0 by (simp add: k_def)
    have absM: "\<bar>M\<bar> = M" and sgnM: "sgn M = 1" using M by simp_all
    have unfolded: "round_to_double M e =
        (if s \<le> 0 then (if 1024 < bitlen M + e then Infinity (0 < M) else Finite M e)
         else if 1024 < bitlen q1 + (e + s) then Infinity (0 < M)
         else Finite (sgn M * q1) (e + s))"
      by (simp only: round_to_double_def Let_def absM s_def q_def q1_def)
    have eq: "e + s = - k" by (simp add: k_def)
    have r: "round_to_double M e = Finite q1 (- k)"
      using s0 no_over by (simp only: unfolded sgnM eq) simp
    have lt: "q1 div 2 ^ nat k < 2 ^ 32"
      using t_cases range by (elim disjE) simp_all
    have "double_to_unsigned (Finite q1 (- k)) = Some (word_of_int (q1 div 2 ^ nat k))"
      by (rule to_unsigned_finite_nonneg [OF q1_0 k0 lt])
    then show ?thesis using r t_cases by (elim disjE) simp_all
  qed
qed

lemma floor_scaled:
  fixes M e :: int
  shows "\<lfloor>of_int M * (2::real) powr of_int e\<rfloor>
         = (if 0 \<le> e then M * 2 ^ nat e else M div 2 ^ nat (- e))"
proof (cases "0 \<le> e")
  case True
  have "(2::real) powr of_int e = of_int (2 ^ nat e)" using True by (simp add: powr_int)
  then have "of_int M * (2::real) powr of_int e = of_int (M * 2 ^ nat e)" by simp
  then have "\<lfloor>of_int M * (2::real) powr of_int e\<rfloor> = M * 2 ^ nat e" by (simp only: floor_of_int)
  then show ?thesis using True by simp
next
  case False
  have "(2::real) powr of_int e = 1 / of_int (2 ^ nat (- e))" using False by (simp add: powr_int)
  then have "of_int M * (2::real) powr of_int e = of_int M / of_int (2 ^ nat (- e))" by simp
  then have "\<lfloor>of_int M * (2::real) powr of_int e\<rfloor> = M div 2 ^ nat (- e)"
    by (simp only: floor_divide_of_int_eq)
  then show ?thesis using False by simp
qed

lemma floor_ms_value:
  "\<lfloor>finite_value m e * 1000\<rfloor>
     = (if 0 \<le> e then m * 1000 * 2 ^ nat e else (m * 1000) div 2 ^ nat (- e))"
proof -
  have "finite_value m e * 1000 = of_int (m * 1000) * 2 powr of_int e"
    by (simp add: finite_value_def)
  then show ?thesis by (simp only: floor_scaled)
qed

text \<open>
  The rounded product, truncated, is the whole number of milliseconds in the duration
  or, when the rounding carries the product up to the next whole number, one more.
\<close>

lemma times_1000_bracket:
  assumes "0 < m" and "\<lfloor>finite_value m e * 1000\<rfloor> + 1 < 2 ^ 32"
  shows "double_to_unsigned (double_times_1000 (Finite m e))
           = Some (word_of_int \<lfloor>finite_value m e * 1000\<rfloor>)
       \<or> double_to_unsigned (double_times_1000 (Finite m e))
           = Some (word_of_int (\<lfloor>finite_value m e * 1000\<rfloor> + 1))"
proof -
  have M: "0 < m * 1000" using assms(1) by simp
  show ?thesis
    using round_bracket [OF M floor_ms_value assms(2)]
    by (simp add: double_times_1000_def)
qed

text \<open>When the product is a double itself, nothing is rounded.\<close>

lemma times_1000_exact:
  assumes "0 < m" and "bitlen (m * 1000) \<le> 53" and "- 1074 \<le> e"
    and "\<lfloor>finite_value m e * 1000\<rfloor> < 2 ^ 32"
  shows "double_to_unsigned (double_times_1000 (Finite m e))
           = Some (word_of_int \<lfloor>finite_value m e * 1000\<rfloor>)"
proof -
  have M: "0 < m * 1000" using assms(1) by simp
  show ?thesis
    using round_exact [OF M floor_ms_value assms(2,3,4)]
    by (simp add: double_times_1000_def)
qed

text \<open>Two products worked out: 0.29 s is 290 ms, 1.5 s is 1500 ms.\<close>

lemma times_1000_of_029:
  "double_to_unsigned (double_times_1000 (Finite 5224175567749775 (- 54))) = Some 290"
  by code_simp

lemma times_1000_of_one_and_a_half:
  "double_to_unsigned (double_times_1000 (Finite 3 (- 1))) = Some 1500"
  by code_simp

subsection \<open>The claim\<close>

text \<open>
  Claim C7.  \<open>get_timeout\<close> returns \<open>INFINITE\<close> when the driver is disabled or the
  script reports no coroutines (then the driver is disabled from now on).  Otherwise it
  returns \<open>INFINITE\<close> when the query for the wait duration fails or its result is not
  a number, 0 when the duration is not greater than 0, and for a positive duration the
  product \<open>sec * 1000\<close> converted to \<open>unsigned\<close>.  For a positive finite duration
  below \<open>2^32\<close> ms that is the whole number of milliseconds in the duration, or one
  more when rounding the product carries it up to the next whole number; it is exactly
  the whole number of milliseconds when the product needs no rounding.  Every call
  counts one iteration.
\<close>

theorem get_timeout_result:
  "fst (get_timeout sc s) =
     (if \<not> m_enabled s \<or> \<not> has_coroutines sc then Some INFINITE
      else
        (case wait_duration_reply sc of
           Call_failed \<Rightarrow> Some INFINITE
         | Not_a_number \<Rightarrow> Some INFINITE
         | Number sec \<Rightarrow>
             if double_gt_zero sec then double_to_unsigned (double_times_1000 sec) else Some 0))
   \<and> (m_enabled s \<and> has_coroutines sc \<and> wait_duration_reply sc = Number (Finite m e) \<longrightarrow>
        (m \<le> 0 \<longrightarrow> fst (get_timeout sc s) = Some 0)
        \<and> (0 < m \<and> \<lfloor>finite_value m e * 1000\<rfloor> + 1 < 2 ^ 32 \<longrightarrow>
             fst (get_timeout sc s) = Some (word_of_int \<lfloor>finite_value m e * 1000\<rfloor>)
             \<or> fst (get_timeout sc s) = Some (word_of_int (\<lfloor>finite_value m e * 1000\<rfloor> + 1)))
        \<and> (0 < m \<and> bitlen (m * 1000) \<le> 53 \<and> - 1074 \<le> e
             \<and> \<lfloor>finite_value m e * 1000\<rfloor> < 2 ^ 32 \<longrightarrow>
             fst (get_timeout sc s) = Some (word_of_int \<lfloor>finite_value m e * 1000\<rfloor>)))
   \<and> (m_enabled s \<and> has_coroutines sc \<and> wait_duration_reply sc = Number NaN \<longrightarrow>
        fst (get_timeout sc s) = Some 0)
   \<and> m_enabled (snd (get_timeout sc s)) = (m_enabled s \<and> has_coroutines sc)
   \<and> m_iterations (snd (get_timeout sc s)) = m_iterations s + 1"
proof -
  have general: "fst (get_timeout sc s) =
     (if \<not> m_enabled s \<or> \<not> has_coroutines sc then Some INFINITE
      else
        (case wait_duration_reply sc of
           Call_failed \<Rightarrow> Some INFINITE
         | Not_a_number \<Rightarrow> Some INFINITE
         | Number sec \<Rightarrow>
             if double_gt_zero sec then double_to_unsigned (double_times_1000 sec) else Some 0))"
    by (simp add: get_timeout_def is_enabled_def Let_def split: lua_number.splits)
  have state: "m_enabled (snd (get_timeout sc s)) = (m_enabled s \<and> has_coroutines sc)
               \<and> m_iterations (snd (get_timeout sc s)) = m_iterations s + 1"
    by (simp add: get_timeout_def is_enabled_def Let_def split: lua_number.splits)
  have finite: "fst (get_timeout sc s)
                = (if 0 < m then double_to_unsigned (double_times_1000 (Finite m e)) else Some 0)"
    if "m_enabled s" and "has_coroutines sc" and "wait_duration_reply sc = Number (Finite m e)"
    using that by (simp add: general double_gt_zero_def)
  have nan: "fst (get_timeout sc s) = Some 0"
    if "m_enabled s" and "has_coroutines sc" and "wait_duration_reply sc = Number NaN"
    using that by (simp add: general double_gt_zero_def)
  show ?thesis
    using general state finite nan times_1000_bracket [of m e] times_1000_exact [of m e]
    by (auto simp del: of_int_add)
qed

theorem get_timeout_result_witness:
  "fst (get_timeout \<lparr>has_coroutines_reply = Some True,
                      wait_duration_reply = Number (Finite 5224175567749775 (- 54))\<rparr>
          \<lparr>m_enabled = True, m_iterations = 0\<rparr>) = Some 290
   \<and> fst (get_timeout \<lparr>has_coroutines_reply = Some True,
                      wait_duration_reply = Number (Finite 3 (- 1))\<rparr>
          \<lparr>m_enabled = True, m_iterations = 0\<rparr>) = Some 1500
   \<and> fst (get_timeout \<lparr>has_coroutines_reply = Some True,
                      wait_duration_reply = Number (Finite (- 1) 0)\<rparr>
          \<lparr>m_enabled = True, m_iterations = 0\<rparr>) = Some 0
   \<and> fst (get_timeout \<lparr>has_coroutines_reply = Some True, wait_duration_reply = Not_a_number\<rparr>
          \<lparr>m_enabled = True, m_iterations = 0\<rparr>) = Some INFINITE
   \<and> fst (get_timeout \<lparr>has_coroutines_reply = Some False,
                      wait_duration_reply = Number (Finite 3 (- 1))\<rparr>
          \<lparr>m_enabled = True, m_iterations = 0\<rparr>) = Some INFINITE
   \<and> fst (get_timeout \<lparr>has_coroutines_reply = Some True,
                      wait_duration_reply = Number (Finite 3 (- 1))\<rparr>
          \<lparr>m_enabled = False, m_iterations = 0\<rparr>) = Some INFINITE"
  using get_timeout_result
          [of "\<lparr>has_coroutines_reply = Some True,
                wait_duration_reply = Number (Finite 5224175567749775 (- 54))\<rparr>"
              "\<lparr>m_enabled = True, m_iterations = 0\<rparr>" 5224175567749775 "- 54"]
    get_timeout_result
          [of "\<lparr>has_coroutines_reply = Some True, wait_duration_reply = Number (Finite 3 (- 1))\<rparr>"
              "\<lparr>m_enabled = True, m_iterations = 0\<rparr>" 3 "- 1"]
    get_timeout_result
          [of "\<lparr>has_coroutines_reply = Some True, wait_duration_reply = Number (Finite (- 1) 0)\<rparr>"
              "\<lparr>m_enabled = True, m_iterations = 0\<rparr>" "- 1" 0]
    get_timeout_result
          [of "\<lparr>has_coroutines_reply = Some True, wait_duration_reply = Not_a_number\<rparr>"
              "\<lparr>m_enabled = True, m_iterations = 0\<rparr>" 0 0]
    get_timeout_result
          [of "\<lparr>has_coroutines_reply = Some False, wait_duration_reply = Number (Finite 3 (- 1))\<rparr>"
              "\<lparr>m_enabled = True, m_iterations = 0\<rparr>" 3 "- 1"]
    get_timeout_result
          [of "\<lparr>has_coroutines_reply = Some True, wait_duration_reply = Number (Finite 3 (- 1))\<rparr>"
              "\<lparr>m_enabled = False, m_iterations = 0\<rparr>" 3 "- 1"]
  by (simp add: has_coroutines_def double_gt_zero_def times_1000_of_029
        times_1000_of_one_and_a_half del: of_int_add)

section \<open>Properties of the popen registry\<close>

lemma find_info_none: "(\<forall>p \<in> set ps. \<not> mentions f p) \<Longrightarrow> find_info f ps = None"
  by (induction ps) (auto simp: mentions_def)

lemma find_info_here:
  "(\<forall>p \<in> set before. \<not> mentions f p) \<Longrightarrow> mentions f q
     \<Longrightarrow> find_info f (before @ q # after) = Some (before, q, after)"
  by (induction before) (auto simp: mentions_def)

text \<open>
  Claim C8, as stated: in asynchronous mode the last close performs a non-blocking wait
  for the process.  It fails.  For an asynchronous entry whose process would report
  status 3, the close of its only stream does nothing with the process handle: the only
  action is the \<open>fclose\<close>, and the status returned is the constant 0.
\<close>

theorem async_close_no_wait_counterexample:
  "pclosefile 0 (\<lambda>h. 3) 21
     [\<lparr>info_r = 21, info_w = 0, process_handle = 600, async = True\<rparr>]
   = (Exec_result 0, [Fclose 21], [])"
  by (simp add: pclosefile_def close_info_def get_wait_handle_def is_async_def Let_def)

text \<open>
  Claim C8, amended.  Let \<open>f\<close> be a stream of the entry \<open>info\<close>, whose process
  handle is set, and let no other entry of the chain hold \<open>f\<close>.  When the other side of
  \<open>info\<close> is still open, \<open>pclosefile\<close> closes \<open>f\<close>, keeps the entry and does not
  wait.  When closing \<open>f\<close> leaves both sides closed, it removes the entry and, in
  synchronous mode, waits for the process (blocking) once and returns its status; in
  asynchronous mode it performs no wait and returns status 0.  Once the entry is gone,
  closing \<open>f\<close> again finds nothing, so there is no second wait.
\<close>

theorem pclosefile_waits_once:
  assumes others: "\<forall>p \<in> set (before @ after). \<not> mentions f p"
    and f: "f \<noteq> 0" and here: "mentions f info" and h: "process_handle info \<noteq> 0"
  shows "pclosefile fclose_ret pclosewait f (before @ info # after) =
           (if (info_r info = f \<or> info_r info = 0) \<and> (info_w info = f \<or> info_w info = 0) then
              (Exec_result (if async info then 0 else pclosewait (process_handle info)),
               Fclose f # (if async info then [] else [Cwait (process_handle info)]),
               before @ after)
            else
              (File_result (fclose_ret = 0), [Fclose f],
               before @ info\<lparr>info_r := (if info_r info = f then 0 else info_r info),
                              info_w := (if info_w info = f then 0 else info_w info)\<rparr> # after))
     \<and> pclosefile fclose_ret pclosewait f (before @ after) = (File_result False, [], before @ after)"
proof -
  have b: "\<forall>p \<in> set before. \<not> mentions f p" using others by simp
  have 1: "find_info f (before @ info # after) = Some (before, info, after)"
    by (rule find_info_here [OF b here])
  have 2: "find_info f (before @ after) = None"
    by (rule find_info_none [OF others])
  show ?thesis
    using f here h
    by (auto simp: pclosefile_def 1 2 close_info_def get_wait_handle_def is_async_def
          mentions_def Let_def)
qed

theorem pclosefile_waits_once_witness:
  "pclosefile 0 (\<lambda>h. 3) 11
     [\<lparr>info_r = 21, info_w = 0, process_handle = 600, async = True\<rparr>,
      \<lparr>info_r = 11, info_w = 12, process_handle = 500, async = False\<rparr>]
   = (File_result True, [Fclose 11],
      [\<lparr>info_r = 21, info_w = 0, process_handle = 600, async = True\<rparr>,
       \<lparr>info_r = 0, info_w = 12, process_handle = 500, async = False\<rparr>])
   \<and> pclosefile 0 (\<lambda>h. 3) 12
     [\<lparr>info_r = 21, info_w = 0, process_handle = 600, async = True\<rparr>,
      \<lparr>info_r = 0, info_w = 12, process_handle = 500, async = False\<rparr>]
   = (Exec_result 3, [Fclose 12, Cwait 500],
      [\<lparr>info_r = 21, info_w = 0, process_handle = 600, async = True\<rparr>])
   \<and> pclosefile 0 (\<lambda>h. 3) 21
     [\<lparr>info_r = 21, info_w = 0, process_handle = 600, async = True\<rparr>]
   = (Exec_result 0, [Fclose 21], [])"
  using pclosefile_waits_once
          [of "[\<lparr>info_r = 21, info_w = 0, process_handle = 600, async = True\<rparr>]" "[]" 11
              "\<lparr>info_r = 11, info_w = 12, process_handle = 500, async = False\<rparr>" 0 "\<lambda>h. 3"]
    pclosefile_waits_once
          [of "[\<lparr>info_r = 21, info_w = 0, process_handle = 600, async = True\<rparr>]" "[]" 12
              "\<lparr>info_r = 0, info_w = 12, process_handle = 500, async = False\<rparr>" 0 "\<lambda>h. 3"]
    pclosefile_waits_once
          [of "[]" "[]" 21
              "\<lparr>info_r = 21, info_w = 0, process_handle = 600, async = True\<rparr>" 0 "\<lambda>h. 3"]
  by (simp add: mentions_def)

section \<open>Properties of command recognition\<close>

text \<open>
  Claim C9, as stated: every word with a wildcard gives -1, and neither shape consults
  the cache.  It fails twice.  The word \<open>//srv/*\<close> has a wildcard and gives 0,
  because the test for two leading separators comes first.  For the word \<open>*.txt\<close>
  the cache is consulted before the wildcard test is reached.
\<close>

theorem wildcard_unc_counterexample:
  "fst (recognize_command example_shell (Some ''dir //srv/*'') (Some ''//srv/*'')
          (recognizer_ctor True)) = Some 0
   \<and> has_wildcard ''//srv/*''
   \<and> fst (snd (recognize_command example_shell (Some ''*.txt'') (Some ''*.txt'')
          (recognizer_ctor True))) = [Call_find ''*.txt'']"
  by (simp add: recognize_command_def example_shell_def is_unc_def c_char_at_def has_wildcard_def
        find_def usable_def recognizer_ctor_def expand_env_def expand_env_loop.simps)

text \<open>
  Claim C9, amended.  For a line and a word that are not empty: a word whose first two
  characters are separators gives 0, with no call to the recognizer.  Any other word,
  when the line is no directory intercept and the cache, consulted first, has no entry
  for it, gives -1 when it contains \<open>*\<close> or \<open>?\<close> after the expansion of environment
  variables; the word is not enqueued and the recognizer is left as it was.
\<close>

theorem recognize_command_short_circuits:
  assumes "line \<noteq> []" and "word \<noteq> []"
  shows "(is_unc sh word \<longrightarrow>
            recognize_command sh (Some line) (Some word) r = (Some 0, [], r))
     \<and> (\<not> is_unc sh word \<and> \<not> intercepts_directory sh line \<and> find r word = None
          \<and> has_wildcard (if fst (expand_env (os_get_env sh) word)
                            then snd (expand_env (os_get_env sh) word) else word) \<longrightarrow>
            recognize_command sh (Some line) (Some word) r = (Some (- 1), [Call_find word], r))"
  using assms by (auto simp: recognize_command_def Let_def split: prod.splits)

theorem recognize_command_short_circuits_witness:
  "recognize_command example_shell (Some ''dir //srv/x'') (Some ''//srv/x'') (recognizer_ctor True)
     = (Some 0, [], recognizer_ctor True)
   \<and> recognize_command example_shell (Some ''%EXT%'') (Some ''%EXT%'') (recognizer_ctor True)
     = (Some (- 1), [Call_find ''%EXT%''], recognizer_ctor True)"
  using recognize_command_short_circuits
          [of "''dir //srv/x''" "''//srv/x''" example_shell "recognizer_ctor True"]
    recognize_command_short_circuits
          [of "''%EXT%''" "''%EXT%''" example_shell "recognizer_ctor True"]
  by (simp add: example_shell_def is_unc_def c_char_at_def has_wildcard_def
        find_def usable_def recognizer_ctor_def expand_env_def expand_env_loop.simps)

end
